theory Spec2Isabelle
  imports Complex_Main
begin

section \<open>Python values, exceptions and outcomes\<close>

text \<open>
  The values that travel through the channels of \<^verbatim>\<open>Mod_ThreadWorkers.py\<close>: \<^verbatim>\<open>None\<close>,
  booleans, integers (unbounded), strings, and dictionaries with string keys and scalar
  values (the shape of the result that \<^verbatim>\<open>TicketCreator\<close> reports and of the items it
  receives).
\<close>

datatype scalar = PNone | PBool bool | PInt int | PStr string

datatype pyval = Scalar scalar | PDict "(string \<times> scalar) list"

abbreviation VNone :: pyval where "VNone \<equiv> Scalar PNone"
abbreviation VBool :: "bool \<Rightarrow> pyval" where "VBool b \<equiv> Scalar (PBool b)"
abbreviation VInt :: "int \<Rightarrow> pyval" where "VInt n \<equiv> Scalar (PInt n)"
abbreviation VStr :: "string \<Rightarrow> pyval" where "VStr s \<equiv> Scalar (PStr s)"

text \<open>The declared types of the five channels: \<^verbatim>\<open>int\<close>, \<^verbatim>\<open>str\<close>, \<^verbatim>\<open>bool\<close>, \<^verbatim>\<open>object\<close>.\<close>

datatype pytype = TInt | TStr | TBool | TObject

fun type_name :: "pytype \<Rightarrow> string" where
  "type_name TInt = ''int''"
| "type_name TStr = ''str''"
| "type_name TBool = ''bool''"
| "type_name TObject = ''object''"

fun class_name :: "pyval \<Rightarrow> string" where
  "class_name (Scalar PNone) = ''NoneType''"
| "class_name (Scalar (PBool b)) = ''bool''"
| "class_name (Scalar (PInt n)) = ''int''"
| "class_name (Scalar (PStr s)) = ''str''"
| "class_name (PDict kvs) = ''dict''"

text \<open>\<^verbatim>\<open>str(type(data))\<close>, as in \<^verbatim>\<open><class 'int'>\<close>.\<close>

definition str_type :: "pyval \<Rightarrow> string" where
  "str_type v = ''<class '' @ [CHR 0x27] @ class_name v @ [CHR 0x27] @ ''>''"

text \<open>
  \<^verbatim>\<open>isinstance(data, var_type)\<close>. Everything is an \<^verbatim>\<open>object\<close>, and \<^verbatim>\<open>bool\<close> is a
  subclass of \<^verbatim>\<open>int\<close>, so a boolean is an instance of \<^verbatim>\<open>int\<close>.
\<close>

fun isinstance :: "pyval \<Rightarrow> pytype \<Rightarrow> bool" where
  "isinstance v TObject = True"
| "isinstance (Scalar (PInt n)) TInt = True"
| "isinstance (Scalar (PBool b)) TInt = True"
| "isinstance (Scalar (PBool b)) TBool = True"
| "isinstance (Scalar (PStr s)) TStr = True"
| "isinstance v t = False"

text \<open>
  An exception is an instance of \<^verbatim>\<open>Exception\<close> (the only kind the handlers of this module
  catch), given by its class name and message. A call either returns or raises; in both
  cases it leaves a state behind.
\<close>

datatype exn = PyExc string string

datatype 's outcome = Returned 's | Raised exn 's

fun state_of :: "'s outcome \<Rightarrow> 's" where
  "state_of (Returned s) = s"
| "state_of (Raised ex s) = s"

fun returns :: "'s outcome \<Rightarrow> bool" where
  "returns (Returned s) = True"
| "returns (Raised ex s) = False"

text \<open>Statement sequencing: the second statement runs only if the first returned.\<close>

definition and_then :: "('s \<Rightarrow> 's outcome) \<Rightarrow> ('s \<Rightarrow> 's outcome) \<Rightarrow> 's \<Rightarrow> 's outcome" where
  "and_then f g s = (case f s of Returned s' \<Rightarrow> g s' | Raised ex s' \<Rightarrow> Raised ex s')"

text \<open>\<^verbatim>\<open>try: body  except Exception as ex: handler\<close>.\<close>

definition try_except ::
  "('s \<Rightarrow> 's outcome) \<Rightarrow> (exn \<Rightarrow> 's \<Rightarrow> 's outcome) \<Rightarrow> 's \<Rightarrow> 's outcome" where
  "try_except body handler s =
     (case body s of Returned s' \<Rightarrow> Returned s' | Raised ex s' \<Rightarrow> handler ex s')"

section \<open>ThreadChannel\<close>

text \<open>
  A subscriber is a callable of one argument. It acts on the state of the consuming side
  (of type \<open>'w\<close>: widgets, logs, whatever the subscriber touches) and may raise; it does
  not reach back into the channel that calls it. It has a \<^verbatim>\<open>__name__\<close>: \<^verbatim>\<open>subscribe\<close> reads
  it before it appends the callable, so a callable without one is never registered, and
  the read of the name in \<^verbatim>\<open>run_loop\<close> succeeds.

  \<^verbatim>\<open>log_msg\<close> and \<^verbatim>\<open>print\<close> write to the console and touch nothing else; console output
  is not part of the state.
\<close>

type_synonym 'w callback = "pyval \<Rightarrow> 'w \<Rightarrow> 'w outcome"

record 'w ThreadChannel =
  parent_name :: string
  name :: string
  queue :: "pyval list"
  var_type :: pytype
  debug :: bool
  var_type_str :: string
  max_entries_per_loop :: int
  callbacks :: "'w callback list"

definition ThreadChannel_init :: "string \<Rightarrow> string \<Rightarrow> pytype \<Rightarrow> 'w ThreadChannel" where
  "ThreadChannel_init parent nm t =
     \<lparr>parent_name = parent, name = nm, queue = [], var_type = t, debug = False,
      var_type_str = type_name t, max_entries_per_loop = 4, callbacks = []\<rparr>"

text \<open>
  The producing side runs \<^verbatim>\<open>queue.put\<close> on one channel after another. To speak about
  the order of these puts across channels, the state of the producing side carries, next
  to the channel, the list of all puts made so far in program order, each with the name
  of its channel.
\<close>

datatype event = Put string pyval

definition queue_put ::
  "pyval \<Rightarrow> 'w ThreadChannel \<times> event list \<Rightarrow> 'w ThreadChannel \<times> event list" where
  "queue_put data s =
     (case s of (c, h) \<Rightarrow> (c\<lparr>queue := queue c @ [data]\<rparr>, h @ [Put (name c) data]))"

text \<open>The body of the \<^verbatim>\<open>try\<close> in \<^verbatim>\<open>send\<close>, and \<^verbatim>\<open>send\<close> with its handler, which only logs.\<close>

definition send_try ::
  "pyval \<Rightarrow> 'w ThreadChannel \<times> event list \<Rightarrow> ('w ThreadChannel \<times> event list) outcome" where
  "send_try data s =
     (if \<not> isinstance data (var_type (fst s))
      then Raised (PyExc ''Exception'' (''send wrong type: '' @ str_type data)) s
      else Returned (queue_put data s))"

definition send ::
  "pyval \<Rightarrow> 'w ThreadChannel \<times> event list \<Rightarrow> ('w ThreadChannel \<times> event list) outcome" where
  "send data = try_except (send_try data) (\<lambda>ex s. Returned s)"

definition subscribe :: "'w callback \<Rightarrow> 'w ThreadChannel \<Rightarrow> 'w ThreadChannel" where
  "subscribe on_data c = c\<lparr>callbacks := callbacks c @ [on_data]\<rparr>"

text \<open>\<^verbatim>\<open>for this_callback in self.callbacks: this_callback(this_data)\<close>.\<close>

fun call_all :: "'w callback list \<Rightarrow> pyval \<Rightarrow> 'w \<Rightarrow> 'w outcome" where
  "call_all [] data w = Returned w"
| "call_all (cb # cbs) data w =
     (case cb data w of Returned w' \<Rightarrow> call_all cbs data w' | Raised ex w' \<Rightarrow> Raised ex w')"

text \<open>
  The \<^verbatim>\<open>while not self.queue.empty()\<close> loop of \<^verbatim>\<open>run_loop\<close>, on the queue, the counter
  \<^verbatim>\<open>num_processed\<close> and the consumer's state. The value is taken off the queue before the
  callbacks run, and the bound is tested after the counter was incremented.
\<close>

fun run_loop_while ::
  "'w callback list \<Rightarrow> int \<Rightarrow> int \<Rightarrow> pyval list \<Rightarrow> 'w \<Rightarrow> (pyval list \<times> 'w) outcome" where
  "run_loop_while cbs mx num_processed [] w = Returned ([], w)"
| "run_loop_while cbs mx num_processed (this_data # q) w =
     (case call_all cbs this_data w of
        Raised ex w' \<Rightarrow> Raised ex (q, w')
      | Returned w' \<Rightarrow>
          if num_processed + 1 \<ge> mx then Returned (q, w')
          else run_loop_while cbs mx (num_processed + 1) q w')"

definition run_loop :: "'w ThreadChannel \<times> 'w \<Rightarrow> ('w ThreadChannel \<times> 'w) outcome" where
  "run_loop s =
     (case s of (c, w) \<Rightarrow>
        (case run_loop_while (callbacks c) (max_entries_per_loop c) 0 (queue c) w of
           Returned (q, w') \<Rightarrow> Returned (c\<lparr>queue := q\<rparr>, w')
         | Raised ex (q, w') \<Rightarrow> Returned (c\<lparr>queue := q\<rparr>, w')))"

text \<open>Several sends in a row.\<close>

fun send_all ::
  "pyval list \<Rightarrow> 'w ThreadChannel \<times> event list \<Rightarrow> ('w ThreadChannel \<times> event list) outcome" where
  "send_all [] s = Returned s"
| "send_all (v # vs) s = and_then (send v) (send_all vs) s"

text \<open>
  What a drain is specified to do: remove the first \<open>min N max_count\<close> values and hand each
  of them to every subscriber, subscriber after subscriber, value after value.
\<close>

definition deliver_each :: "'w callback list \<Rightarrow> pyval list \<Rightarrow> 'w \<Rightarrow> 'w" where
  "deliver_each cbs ds w = fold (\<lambda>d. fold (\<lambda>cb w'. state_of (cb d w')) cbs) ds w"



section \<open>Formatting and arithmetic of the task body\<close>

text \<open>\<^verbatim>\<open>str\<close> of an integer, and of a scalar as \<^verbatim>\<open>'%s' % x\<close> renders it.\<close>

fun str_nat :: "nat \<Rightarrow> string" where
  "str_nat n =
     (if n < 10 then [''0123456789'' ! n]
      else str_nat (n div 10) @ [''0123456789'' ! (n mod 10)])"

declare str_nat.simps [simp del]

definition str_int :: "int \<Rightarrow> string" where
  "str_int i = (if i < 0 then ''-'' @ str_nat (nat (- i)) else str_nat (nat i))"

fun py_str :: "scalar \<Rightarrow> string" where
  "py_str PNone = ''None''"
| "py_str (PBool b) = (if b then ''True'' else ''False'')"
| "py_str (PInt i) = str_int i"
| "py_str (PStr s) = s"

text \<open>
  The progress of an item is \<^verbatim>\<open>round(((count + 1) / num_selected) * 100)\<close>: a true division
  of two integers, which gives the double nearest to the quotient, a multiplication of
  doubles, and \<^verbatim>\<open>round\<close>, which rounds a double to the nearest integer, a tie to the even
  one. A finite double is modelled by the rational number it denotes. Rounding a positive
  rational to a double keeps 53 significant bits (fewer below \<open>2 ^ - 1022\<close>, where the
  spacing stays \<open>2 ^ - 1074\<close>), ties to the even mantissa; the quotients and products of
  the task body lie in the interval from 0 to 100, far from overflow.
\<close>

function bit_length :: "int \<Rightarrow> int" where
  "bit_length n = (if n \<le> 0 then 0 else 1 + bit_length (n div 2))"
  by pat_completeness auto
termination
  by (relation "measure nat") auto

declare bit_length.simps [simp del]

definition pow2 :: "int \<Rightarrow> rat" where
  "pow2 e = (if 0 \<le> e then 2 ^ nat e else 1 / 2 ^ nat (- e))"

definition round_half_even :: "rat \<Rightarrow> int" where
  "round_half_even x =
     (let f = \<lfloor>x\<rfloor>; d = x - of_int f
      in if d < 1 / 2 then f else if 1 / 2 < d then f + 1 else if even f then f else f + 1)"

text \<open>For \<open>0 < x\<close>, the exponent \<open>l\<close> with \<open>2 ^ l \<le> x < 2 ^ (l + 1)\<close>.\<close>

definition floor_log2 :: "rat \<Rightarrow> int" where
  "floor_log2 x =
     (case quotient_of x of (n, d) \<Rightarrow>
        (let l = bit_length n - bit_length d
         in if pow2 l \<le> x then l else l - 1))"

definition double_of_rat :: "rat \<Rightarrow> rat" where
  "double_of_rat x =
     (if x \<le> 0 then 0
      else let e = max (floor_log2 x - 52) (- 1074)
           in of_int (round_half_even (x / pow2 e)) * pow2 e)"

definition py_truediv :: "int \<Rightarrow> int \<Rightarrow> exn + rat" where
  "py_truediv a b =
     (if b = 0 then Inl (PyExc ''ZeroDivisionError'' ''division by zero'')
      else Inr (double_of_rat (of_int a / of_int b)))"

definition float_mul :: "rat \<Rightarrow> rat \<Rightarrow> rat" where
  "float_mul x y = double_of_rat (x * y)"

definition py_round :: "rat \<Rightarrow> int" where
  "py_round x = round_half_even x"

section \<open>ThreadWorkerChannels and ThreadWorker\<close>

record 'w ThreadWorkerChannels =
  progress :: "'w ThreadChannel"
  status :: "'w ThreadChannel"
  error :: "'w ThreadChannel"
  success :: "'w ThreadChannel"
  result :: "'w ThreadChannel"

definition ThreadWorkerChannels_init :: "string \<Rightarrow> 'w ThreadWorkerChannels" where
  "ThreadWorkerChannels_init parent =
     \<lparr>progress = ThreadChannel_init parent ''progress'' TInt,
      status = ThreadChannel_init parent ''status'' TStr,
      error = ThreadChannel_init parent ''error'' TStr,
      success = ThreadChannel_init parent ''success'' TBool,
      result = ThreadChannel_init parent ''result'' TObject\<rparr>"

text \<open>\<^verbatim>\<open>ThreadWorkerChannels.run_loop\<close>: one drain of each channel, in this order.\<close>

definition drain_field ::
  "('w ThreadWorkerChannels \<Rightarrow> 'w ThreadChannel) \<Rightarrow>
   (('w ThreadChannel \<Rightarrow> 'w ThreadChannel) \<Rightarrow> 'w ThreadWorkerChannels \<Rightarrow> 'w ThreadWorkerChannels) \<Rightarrow>
   'w ThreadWorkerChannels \<times> 'w \<Rightarrow> ('w ThreadWorkerChannels \<times> 'w) outcome" where
  "drain_field sel upd s =
     (case s of (chs, w) \<Rightarrow>
        (case run_loop (sel chs, w) of
           Returned (c, w') \<Rightarrow> Returned (upd (\<lambda>_. c) chs, w')
         | Raised ex (c, w') \<Rightarrow> Raised ex (upd (\<lambda>_. c) chs, w')))"

definition channels_run_loop ::
  "'w ThreadWorkerChannels \<times> 'w \<Rightarrow> ('w ThreadWorkerChannels \<times> 'w) outcome" where
  "channels_run_loop =
     and_then (drain_field progress progress_update)
    (and_then (drain_field status status_update)
    (and_then (drain_field error error_update)
    (and_then (drain_field success success_update)
              (drain_field result result_update))))"

text \<open>
  The monitor thread is an object of the threading library; the worker calls \<^verbatim>\<open>start()\<close> and
  \<^verbatim>\<open>_stop()\<close> on it. What these two calls do is the library's business, so the thread is
  given by the outcome of each call: \<open>None\<close> when the call returns, the exception when it
  raises. The polling loop that the thread runs (\<^verbatim>\<open>ThreadWorker.run_loop\<close>) is the consuming
  side and is not part of the worker's own sequence of statements.
\<close>

record Thread =
  start_raises :: "exn option"
  stop_raises :: "exn option"

text \<open>
  The worker. Besides the fields of the class (\<^verbatim>\<open>loop_delay\<close> and \<^verbatim>\<open>debug\<close>, which only the
  polling loop and the console output read, are left out), \<open>sent\<close> is the list of puts the
  worker has made on its channels, in program order. The functions below are the
  statements of the thread that runs the worker, one after the other; the polling loop
  drains the queues from another thread and is not interleaved here.
\<close>

record 'w ThreadWorker =
  worker_name :: string
  channels :: "'w ThreadWorkerChannels"
  monitor_thread :: Thread
  sent :: "event list"

definition ThreadWorker_init :: "string \<Rightarrow> Thread \<Rightarrow> 'w ThreadWorker" where
  "ThreadWorker_init nm th =
     \<lparr>worker_name = nm, channels = ThreadWorkerChannels_init nm, monitor_thread = th, sent = []\<rparr>"

text \<open>\<^verbatim>\<open>self.channels.<field>.send(data)\<close>.\<close>

definition channel_send ::
  "('w ThreadWorkerChannels \<Rightarrow> 'w ThreadChannel) \<Rightarrow>
   (('w ThreadChannel \<Rightarrow> 'w ThreadChannel) \<Rightarrow> 'w ThreadWorkerChannels \<Rightarrow> 'w ThreadWorkerChannels) \<Rightarrow>
   pyval \<Rightarrow> ('w, 'z) ThreadWorker_scheme \<Rightarrow> ('w, 'z) ThreadWorker_scheme outcome" where
  "channel_send sel upd data self =
     (case send data (sel (channels self), sent self) of
        Returned (c, h) \<Rightarrow> Returned (self\<lparr>channels := upd (\<lambda>_. c) (channels self), sent := h\<rparr>)
      | Raised ex (c, h) \<Rightarrow> Raised ex (self\<lparr>channels := upd (\<lambda>_. c) (channels self), sent := h\<rparr>))"

definition report_progress ::
  "pyval \<Rightarrow> ('w, 'z) ThreadWorker_scheme \<Rightarrow> ('w, 'z) ThreadWorker_scheme outcome" where
  "report_progress p = channel_send progress progress_update p"

definition report_status ::
  "pyval \<Rightarrow> ('w, 'z) ThreadWorker_scheme \<Rightarrow> ('w, 'z) ThreadWorker_scheme outcome" where
  "report_status message = channel_send status status_update message"

definition report_error ::
  "pyval \<Rightarrow> ('w, 'z) ThreadWorker_scheme \<Rightarrow> ('w, 'z) ThreadWorker_scheme outcome" where
  "report_error message =
     and_then (report_status (VStr ''Error''))
    (and_then (channel_send error error_update message)
              (channel_send success success_update (VBool False)))"

definition report_success ::
  "('w, 'z) ThreadWorker_scheme \<Rightarrow> ('w, 'z) ThreadWorker_scheme outcome" where
  "report_success =
     and_then (report_status (VStr ''Success''))
              (channel_send success success_update (VBool True))"

definition report_result ::
  "pyval \<Rightarrow> ('w, 'z) ThreadWorker_scheme \<Rightarrow> ('w, 'z) ThreadWorker_scheme outcome" where
  "report_result r = channel_send result result_update r"

definition thread_start ::
  "('w, 'z) ThreadWorker_scheme \<Rightarrow> ('w, 'z) ThreadWorker_scheme outcome" where
  "thread_start self =
     (case start_raises (monitor_thread self) of None \<Rightarrow> Returned self | Some ex \<Rightarrow> Raised ex self)"

definition cleanup ::
  "('w, 'z) ThreadWorker_scheme \<Rightarrow> ('w, 'z) ThreadWorker_scheme outcome" where
  "cleanup self =
     (case stop_raises (monitor_thread self) of None \<Rightarrow> Returned self | Some ex \<Rightarrow> Raised ex self)"

text \<open>
  \<^verbatim>\<open>run\<close>, for a given \<^verbatim>\<open>thread_action\<close> (the method a subclass overrides). The handler of
  the \<^verbatim>\<open>try\<close> prints and goes on.
\<close>

definition run ::
  "(('w, 'z) ThreadWorker_scheme \<Rightarrow> ('w, 'z) ThreadWorker_scheme outcome) \<Rightarrow>
   ('w, 'z) ThreadWorker_scheme \<Rightarrow> ('w, 'z) ThreadWorker_scheme outcome" where
  "run thread_action =
     and_then (report_status (VStr ''Starting''))
    (and_then thread_start
    (and_then (report_progress (VInt 0))
    (and_then (try_except thread_action (\<lambda>ex self. Returned self))
              cleanup)))"

section \<open>TicketCreator\<close>

text \<open>An item is a dictionary with string keys; \<^verbatim>\<open>item['id']\<close> raises \<^verbatim>\<open>KeyError\<close> without the key.\<close>

type_synonym item = "string \<rightharpoonup> scalar"

record 'w TicketCreator = "'w ThreadWorker" +
  items :: "item list"

definition TicketCreator_init :: "Thread \<Rightarrow> item list \<Rightarrow> 'w TicketCreator" where
  "TicketCreator_init th its =
     \<lparr>worker_name = ''TicketCreator'', channels = ThreadWorkerChannels_init ''TicketCreator'',
      monitor_thread = th, sent = [], items = its\<rparr>"

text \<open>
  The \<^verbatim>\<open>for item in self.items\<close> loop, on the locals \<^verbatim>\<open>count\<close> and \<^verbatim>\<open>num_created\<close> and the
  worker.
\<close>

fun ticket_loop ::
  "int \<Rightarrow> item list \<Rightarrow> (int \<times> int) \<times> 'w TicketCreator \<Rightarrow> ((int \<times> int) \<times> 'w TicketCreator) outcome" where
  "ticket_loop num_selected [] s = Returned s"
| "ticket_loop num_selected (item # rest) s =
     (case s of ((count, num_created), self) \<Rightarrow>
        (case item ''id'' of
           None \<Rightarrow> Raised (PyExc ''KeyError'' ([CHR 0x27] @ ''id'' @ [CHR 0x27])) s
         | Some contract_id \<Rightarrow>
             (case py_truediv (count + 1) num_selected of
                Inl ex \<Rightarrow> Raised ex s
              | Inr ratio \<Rightarrow>
                  (let progress = py_round (float_mul ratio 100)
                   in case and_then
                             (report_status
                                (VStr (''Creating tickets for Contract ID: '' @ py_str contract_id)))
                             (report_progress (VInt progress)) self of
                        Raised ex self' \<Rightarrow> Raised ex ((count, num_created), self')
                      | Returned self' \<Rightarrow>
                          ticket_loop num_selected rest ((count + 1, num_created + 1), self')))))"

definition thread_action :: "'w TicketCreator \<Rightarrow> 'w TicketCreator outcome" where
  "thread_action self =
     (let num_selected = int (length (items self)); num_created = 0; num_skipped = 0
      in if num_selected = 0
         then report_status (VStr ''Creating 0 tickets, no contracts selected'') self
         else
           (case and_then
                   (report_status
                      (VStr (''Creating tickets for '' @ str_int num_selected @ '' selected contracts'')))
                   (report_progress (VInt 5)) self of
              Raised ex self1 \<Rightarrow> Raised ex self1
            | Returned self1 \<Rightarrow>
                (case ticket_loop num_selected (items self) ((0, num_created), self1) of
                   Raised ex (locals, self2) \<Rightarrow> Raised ex self2
                 | Returned ((count, num_created'), self2) \<Rightarrow>
                     and_then (report_progress (VInt 100))
                    (and_then
                       (report_status
                          (VStr (''Of '' @ str_int num_selected @ '' selected contracts, ''
                                 @ str_int num_created' @ '' tickets were created, and ''
                                 @ str_int num_skipped @ '' were skipped'')))
                       (report_result
                          (PDict [(''created'', PInt num_created'),
                                  (''selected'', PInt num_selected),
                                  (''skipped'', PInt num_skipped)]))) self2)))"

section \<open>ThreadWorkerCommunicator\<close>

text \<open>
  The handlers of the communicator act on the user interface: they assign to a key of a
  widget (\<^verbatim>\<open>self.progressbar['value'] = progress\<close>), ask the window to refresh
  (\<^verbatim>\<open>self.window.update_idletasks()\<close>), call the message function that the communicator was
  given as \<^verbatim>\<open>log_msg\<close>, or call the result function. A message is given by its format
  string and the values formatted into it (\<^verbatim>\<open>fmt % (a, b)\<close>); how a value is rendered is
  left open. The state of the consuming side is the list of these calls, in order,
  together with what the interface does on each call (\<open>None\<close>: it returns; an exception:
  it raises).
\<close>

datatype ui_call =
  SetItem string string pyval
| UpdateIdletasks
| LogMsg string "pyval list"
| ResultFunction pyval

record ui =
  ui_calls :: "ui_call list"
  ui_raises :: "ui_call \<Rightarrow> exn option"

definition ui_do :: "ui_call \<Rightarrow> ui \<Rightarrow> ui outcome" where
  "ui_do call w =
     (let w' = w\<lparr>ui_calls := ui_calls w @ [call]\<rparr>
      in case ui_raises w call of None \<Rightarrow> Returned w' | Some ex \<Rightarrow> Raised ex w')"

text \<open>
  The sinks are optional: \<open>None\<close> is the default \<^verbatim>\<open>progressbar=None\<close>, and a widget (given by
  its name) is truthy.
\<close>

record ThreadWorkerCommunicator =
  comm_name :: string
  progressbar :: "string option"
  statuslabel :: "string option"

definition on_progress :: "ThreadWorkerCommunicator \<Rightarrow> ui callback" where
  "on_progress self progress_value w =
     (case progressbar self of
        None \<Rightarrow> Returned w
      | Some bar \<Rightarrow> and_then (ui_do (SetItem bar ''value'' progress_value)) (ui_do UpdateIdletasks) w)"

text \<open>Truth of a value, as \<^verbatim>\<open>if value:\<close> tests it.\<close>

fun py_truthy :: "pyval \<Rightarrow> bool" where
  "py_truthy (Scalar PNone) = False"
| "py_truthy (Scalar (PBool b)) = b"
| "py_truthy (Scalar (PInt n)) = (n \<noteq> 0)"
| "py_truthy (Scalar (PStr s)) = (s \<noteq> [])"
| "py_truthy (PDict kvs) = (kvs \<noteq> [])"

definition on_status :: "ThreadWorkerCommunicator \<Rightarrow> ui callback" where
  "on_status self status_value =
     and_then (ui_do (LogMsg ''ThreadWorker %s - Status: %s'' [VStr (comm_name self), status_value]))
       (case statuslabel self of
          None \<Rightarrow> Returned
        | Some label \<Rightarrow> and_then (ui_do (SetItem label ''text'' status_value)) (ui_do UpdateIdletasks))"

definition on_error :: "ThreadWorkerCommunicator \<Rightarrow> ui callback" where
  "on_error self error_value =
     ui_do (LogMsg ''ThreadWorker %s - Error: %s'' [VStr (comm_name self), error_value])"

definition on_success :: "ThreadWorkerCommunicator \<Rightarrow> ui callback" where
  "on_success self success_value =
     (if py_truthy success_value
      then ui_do (LogMsg ''ThreadWorker %s - Success!'' [VStr (comm_name self)])
      else ui_do (LogMsg ''ThreadWorker %s - Failed!'' [VStr (comm_name self)]))"

definition on_result :: "ThreadWorkerCommunicator \<Rightarrow> ui callback" where
  "on_result self result_value = ui_do (ResultFunction result_value)"

text \<open>
  \<^verbatim>\<open>setup\<close>, on the channels of the worker and the interface: the body of its \<^verbatim>\<open>try\<close> logs
  and then subscribes the five handlers; the handler of the \<^verbatim>\<open>try\<close> prints and goes on.
\<close>

definition communicator_setup_try ::
  "ThreadWorkerCommunicator \<Rightarrow> ui ThreadWorkerChannels \<times> ui \<Rightarrow> (ui ThreadWorkerChannels \<times> ui) outcome" where
  "communicator_setup_try self s =
     (case s of (chs, u) \<Rightarrow>
        (case ui_do (LogMsg ''Setting up'' []) u of
           Raised ex u' \<Rightarrow> Raised ex (chs, u')
         | Returned u' \<Rightarrow>
             Returned
               (chs\<lparr>progress := subscribe (on_progress self) (progress chs),
                    status := subscribe (on_status self) (status chs),
                    error := subscribe (on_error self) (error chs),
                    success := subscribe (on_success self) (success chs),
                    result := subscribe (on_result self) (result chs)\<rparr>, u')))"

definition communicator_setup ::
  "ThreadWorkerCommunicator \<Rightarrow> ui ThreadWorkerChannels \<times> ui \<Rightarrow> (ui ThreadWorkerChannels \<times> ui) outcome" where
  "communicator_setup self = try_except (communicator_setup_try self) (\<lambda>ex s. Returned s)"

text \<open>An interface on which every call returns.\<close>

definition calm :: "ui \<Rightarrow> bool" where
  "calm u = (\<forall>call. ui_raises u call = None)"

section \<open>Repeated drains\<close>

text \<open>
  \<open>drains n\<close>: \<open>n\<close> calls of \<^verbatim>\<open>run_loop\<close> on a channel, one after the other, as the polling
  loop makes them tick after tick. \<open>delivered_to_all c w\<close>: after as many drains as the
  queue of \<open>c\<close> holds values, the queue is empty and every value of it was handed to every
  subscriber, value after value. A subscriber is quiet on \<open>P\<close> when, from a state of the
  consuming side that satisfies \<open>P\<close>, it returns and leaves such a state.
\<close>

fun drains :: "nat \<Rightarrow> 'w ThreadChannel \<times> 'w \<Rightarrow> 'w ThreadChannel \<times> 'w" where
  "drains 0 s = s"
| "drains (Suc n) s = drains n (state_of (run_loop s))"

definition delivered_to_all :: "'w ThreadChannel \<Rightarrow> 'w \<Rightarrow> bool" where
  "delivered_to_all c w =
     (drains (length (queue c)) (c, w) =
        (c\<lparr>queue := []\<rparr>, deliver_each (callbacks c) (queue c) w))"

definition quiet_on :: "('w \<Rightarrow> bool) \<Rightarrow> 'w callback \<Rightarrow> bool" where
  "quiet_on P cb = (\<forall>d w. P w \<longrightarrow> returns (cb d w) \<and> P (state_of (cb d w)))"

section \<open>What a run of the worker emits\<close>

text \<open>
  The channels of a worker are declared as \<^verbatim>\<open>ThreadWorkerChannels.__init__\<close> declares them when
  each has the name and the type given there.
\<close>

definition declared_channels :: "'w ThreadWorkerChannels \<Rightarrow> bool" where
  "declared_channels chs =
     (name (progress chs) = ''progress'' \<and> var_type (progress chs) = TInt
      \<and> name (status chs) = ''status'' \<and> var_type (status chs) = TStr
      \<and> name (error chs) = ''error'' \<and> var_type (error chs) = TStr
      \<and> name (success chs) = ''success'' \<and> var_type (success chs) = TBool
      \<and> name (result chs) = ''result'' \<and> var_type (result chs) = TObject)"

text \<open>The values that a list of puts places on the channel of a given name, in order.\<close>

fun enqueued :: "string \<Rightarrow> event list \<Rightarrow> pyval list" where
  "enqueued nm [] = []"
| "enqueued nm (Put n v # evs) = (if n = nm then v # enqueued nm evs else enqueued nm evs)"

text \<open>
  \<open>extends_by self self' evs\<close>: from the worker state \<open>self\<close> to \<open>self'\<close>, exactly the puts
  \<open>evs\<close> were made, in this order, and the queue of each channel grew by the values put on
  it. \<open>emits f self evs\<close>: the statement \<open>f\<close>, run by the worker \<open>self\<close>, does that.
\<close>

definition extends_by ::
  "('w, 'z) ThreadWorker_scheme \<Rightarrow> ('w, 'z) ThreadWorker_scheme \<Rightarrow> event list \<Rightarrow> bool" where
  "extends_by self self' evs =
     (sent self' = sent self @ evs
      \<and> queue (progress (channels self')) = queue (progress (channels self)) @ enqueued ''progress'' evs
      \<and> queue (status (channels self')) = queue (status (channels self)) @ enqueued ''status'' evs
      \<and> queue (error (channels self')) = queue (error (channels self)) @ enqueued ''error'' evs
      \<and> queue (success (channels self')) = queue (success (channels self)) @ enqueued ''success'' evs
      \<and> queue (result (channels self')) = queue (result (channels self)) @ enqueued ''result'' evs)"

definition emits ::
  "(('w, 'z) ThreadWorker_scheme \<Rightarrow> ('w, 'z) ThreadWorker_scheme outcome) \<Rightarrow>
   ('w, 'z) ThreadWorker_scheme \<Rightarrow> event list \<Rightarrow> bool" where
  "emits f self evs = extends_by self (state_of (f self)) evs"

text \<open>
  The progress of the \<open>i\<close>-th of \<open>k\<close> items, \<^verbatim>\<open>round((i / k) * 100)\<close>, and the puts of the ticket
  task over a list of items: the two of each item, numbered from \<open>count + 1\<close>, and those of
  a whole run.
\<close>

definition round_pct :: "int \<Rightarrow> int \<Rightarrow> int" where
  "round_pct i k = py_round (float_mul (double_of_rat (of_int i / of_int k)) 100)"

fun item_events :: "int \<Rightarrow> int \<Rightarrow> item list \<Rightarrow> event list" where
  "item_events k count [] = []"
| "item_events k count (item # rest) =
     [Put ''status'' (VStr (''Creating tickets for Contract ID: '' @ py_str (the (item ''id'')))),
      Put ''progress'' (VInt (round_pct (count + 1) k))]
     @ item_events k (count + 1) rest"

definition task_events :: "item list \<Rightarrow> event list" where
  "task_events its =
     (let k = int (length its)
      in [Put ''status'' (VStr (''Creating tickets for '' @ str_int k @ '' selected contracts'')),
          Put ''progress'' (VInt 5)]
         @ item_events k 0 its
         @ [Put ''progress'' (VInt 100),
            Put ''status'' (VStr (''Of '' @ str_int k @ '' selected contracts, '' @ str_int k
                                  @ '' tickets were created, and '' @ str_int 0 @ '' were skipped'')),
            Put ''result'' (PDict [(''created'', PInt k), (''selected'', PInt k), (''skipped'', PInt 0)])])"

definition ticket_events :: "item list \<Rightarrow> event list" where
  "ticket_events its = [Put ''status'' (VStr ''Starting''), Put ''progress'' (VInt 0)] @ task_events its"

text \<open>The worker as \<^verbatim>\<open>run\<close> has it when it calls \<^verbatim>\<open>thread_action\<close>.\<close>

definition started :: "('w, 'z) ThreadWorker_scheme \<Rightarrow> ('w, 'z) ThreadWorker_scheme" where
  "started self =
     state_of (and_then (report_status (VStr ''Starting''))
                 (and_then thread_start (report_progress (VInt 0))) self)"

definition has_id :: "item \<Rightarrow> bool" where
  "has_id item = (item ''id'' \<noteq> None)"

text \<open>Two subscribers for concrete runs: one records what it is given, one raises.\<close>

definition recorder :: "string \<Rightarrow> (string \<times> pyval) list callback" where
  "recorder nm data w = Returned (w @ [(nm, data)])"

definition failing :: "(string \<times> pyval) list callback" where
  "failing data w = Raised (PyExc ''ValueError'' ''boom'') w"

definition two_recorders :: "(string \<times> pyval) list ThreadChannel" where
  "two_recorders =
     subscribe (recorder ''b'') (subscribe (recorder ''a'') (ThreadChannel_init ''w'' ''progress'' TInt))"

definition failing_first :: "(string \<times> pyval) list ThreadChannel" where
  "failing_first =
     subscribe (recorder ''b'') (subscribe failing (ThreadChannel_init ''w'' ''progress'' TInt))"

definition zero_bound :: "(string \<times> pyval) list ThreadChannel" where
  "zero_bound =
     (subscribe (recorder ''a'') (ThreadChannel_init ''w'' ''progress'' TInt))\<lparr>max_entries_per_loop := 0\<rparr>"

text \<open>
  Concrete workers: a monitor thread whose two calls return, the three items of
  \<^verbatim>\<open>Mod_MainWindow.create_tickets\<close>, an empty list, and a list whose second item has no
  \<^verbatim>\<open>'id'\<close>.
\<close>

definition quiet_thread :: Thread where
  "quiet_thread = \<lparr>start_raises = None, stop_raises = None\<rparr>"

definition sample_items :: "item list" where
  "sample_items =
     [[''id'' \<mapsto> PStr ''42'', ''name'' \<mapsto> PStr ''Albert''],
      [''id'' \<mapsto> PStr ''12'', ''name'' \<mapsto> PStr ''Michael''],
      [''id'' \<mapsto> PStr ''07'', ''name'' \<mapsto> PStr ''Kinsley'']]"

definition sample_worker :: "ui TicketCreator" where
  "sample_worker = TicketCreator_init quiet_thread sample_items"

definition empty_worker :: "ui TicketCreator" where
  "empty_worker = TicketCreator_init quiet_thread []"

definition broken_worker :: "ui TicketCreator" where
  "broken_worker =
     TicketCreator_init quiet_thread [[''id'' \<mapsto> PStr ''42''], [''name'' \<mapsto> PStr ''Michael'']]"

definition plain_worker :: "ui ThreadWorker" where
  "plain_worker = ThreadWorker_init ''worker'' quiet_thread"

text \<open>
  Concrete communicators: one without a progress bar, facing an interface on which every
  call would raise, and one with a progress bar whose \<^verbatim>\<open>on_progress\<close> is subscribed to the
  progress channel of a worker.
\<close>

definition no_bar :: ThreadWorkerCommunicator where
  "no_bar = \<lparr>comm_name = ''Create JIRA Tickets'', progressbar = None, statuslabel = Some ''label''\<rparr>"

definition with_bar :: ThreadWorkerCommunicator where
  "with_bar = \<lparr>comm_name = ''Create JIRA Tickets'', progressbar = Some ''bar'', statuslabel = None\<rparr>"

definition hostile_ui :: ui where
  "hostile_ui = \<lparr>ui_calls = [], ui_raises = (\<lambda>call. Some (PyExc ''TclError'' ''no display''))\<rparr>"

definition calm_ui :: ui where
  "calm_ui = \<lparr>ui_calls = [], ui_raises = (\<lambda>call. None)\<rparr>"

definition no_bar_channel :: "ui ThreadChannel" where
  "no_bar_channel =
     (subscribe (on_progress no_bar) (ThreadChannel_init ''TicketCreator'' ''progress'' TInt))
       \<lparr>queue := [VInt 0, VInt 5, VInt 33]\<rparr>"

text \<open>
  A worker bound by \<^verbatim>\<open>setup\<close> to the communicator with a status label, with the interface
  as \<^verbatim>\<open>setup\<close> leaves it; and two workers whose first subscriber, on the status and on the
  progress channel, raises.
\<close>

definition labelled_worker :: "ui ThreadWorker" where
  "labelled_worker =
     plain_worker\<lparr>channels := fst (state_of (communicator_setup no_bar (channels plain_worker, calm_ui)))\<rparr>"

definition labelled_ui :: ui where
  "labelled_ui = snd (state_of (communicator_setup no_bar (channels plain_worker, calm_ui)))"


definition deaf_progress_worker :: "(string \<times> pyval) list ThreadWorker" where
  "deaf_progress_worker =
     (let w = ThreadWorker_init ''worker'' quiet_thread
      in w\<lparr>channels :=
           (channels w)\<lparr>progress := subscribe (recorder ''b'') (subscribe failing (progress (channels w)))\<rparr>\<rparr>)"

definition bound_worker :: "ui ThreadWorker" where
  "bound_worker =
     plain_worker\<lparr>channels :=
       (channels plain_worker)\<lparr>progress := subscribe (on_progress with_bar) (progress (channels plain_worker))\<rparr>\<rparr>"

section \<open>Properties of ThreadChannel\<close>

lemma send_mismatch:
  "\<not> isinstance data (var_type c) \<Longrightarrow> send data (c, h) = Returned (c, h)"
  by (simp add: send_def try_except_def send_try_def)

lemma send_match:
  "isinstance data (var_type c) \<Longrightarrow>
   send data (c, h) = Returned (c\<lparr>queue := queue c @ [data]\<rparr>, h @ [Put (name c) data])"
  by (simp add: send_def try_except_def send_try_def queue_put_def)

lemma send_returns: "returns (send data s)"
  by (cases s) (simp add: send_def try_except_def send_try_def)







lemma two_recorders_fields:
  "var_type two_recorders = TInt" "max_entries_per_loop two_recorders = 4"
  "queue two_recorders = []" "callbacks two_recorders = [recorder ''a'', recorder ''b'']"
  "two_recorders\<lparr>queue := []\<rparr> = two_recorders"
  by (simp_all add: two_recorders_def subscribe_def ThreadChannel_init_def)



text \<open>
  The run behind the witness: five values are queued, the bound is 4; four values reach
  both subscribers, value by value, and the fifth stays queued.
\<close>

lemma run_loop_five_values:
  "run_loop (fst (state_of (send_all [VInt 1, VInt 2, VInt 3, VInt 4, VInt 5] (two_recorders, []))), [])
   = Returned (two_recorders\<lparr>queue := [VInt 5]\<rparr>,
        [(''a'', VInt 1), (''b'', VInt 1), (''a'', VInt 2), (''b'', VInt 2),
         (''a'', VInt 3), (''b'', VInt 3), (''a'', VInt 4), (''b'', VInt 4)])"
  by (simp add: two_recorders_def subscribe_def ThreadChannel_init_def and_then_def send_match
      run_loop_def recorder_def)


lemma run_loop_failing_first:
  "run_loop (fst (state_of (send_all [VInt 1, VInt 2] (failing_first, []))), [])
     = Returned (failing_first\<lparr>queue := [VInt 2]\<rparr>, [])"
  by (simp add: failing_first_def subscribe_def ThreadChannel_init_def and_then_def
      send_match run_loop_def recorder_def failing_def)

lemma run_loop_zero_bound:
  "run_loop (fst (state_of (send_all [VInt 1] (zero_bound, []))), [])
     = Returned (zero_bound\<lparr>queue := []\<rparr>, [(''a'', VInt 1)])"
  by (simp add: zero_bound_def subscribe_def ThreadChannel_init_def and_then_def
      send_match run_loop_def recorder_def)

text \<open>
  C2. A value that is not an instance of the channel's declared type is dropped by
  \<^verbatim>\<open>send\<close>: the \<^verbatim>\<open>try\<close> body raises, the handler swallows the exception, and \<^verbatim>\<open>send\<close> returns
  with the channel (its queue included) and the record of puts unchanged. The channel
  being unchanged, a drain after the send does exactly what it would have done without
  it, so no subscriber is called with the value.
\<close>

theorem C2_send_wrong_type_dropped:
  assumes "\<not> isinstance data (var_type c)"
  shows "send data (c, h) = Returned (c, h)
       \<and> send_try data (c, h) =
           Raised (PyExc ''Exception'' (''send wrong type: '' @ str_type data)) (c, h)
       \<and> length (queue (fst (state_of (send data (c, h))))) = length (queue c)
       \<and> run_loop (fst (state_of (send data (c, h))), w) = run_loop (c, w)"
  using assms by (simp add: send_mismatch send_try_def)

theorem C2_send_wrong_type_dropped_witness:
  "\<not> isinstance (VStr ''50'') (var_type two_recorders)
   \<and> send (VStr ''50'') (two_recorders, []) = Returned (two_recorders, [])
   \<and> send_try (VStr ''50'') (two_recorders, []) =
       Raised (PyExc ''Exception'' (''send wrong type: '' @ str_type (VStr ''50''))) (two_recorders, [])
   \<and> length (queue (fst (state_of (send (VStr ''50'') (two_recorders, []))))) = length (queue two_recorders)
   \<and> run_loop (fst (state_of (send (VStr ''50'') (two_recorders, []))), []) = run_loop (two_recorders, [])"
proof -
  have h: "\<not> isinstance (VStr ''50'') (var_type two_recorders)"
    by (simp add: two_recorders_fields)
  show ?thesis using h C2_send_wrong_type_dropped [OF h, of "[]" "[]"] by simp
qed

section \<open>Properties of the worker\<close>

lemma enqueued_append: "enqueued nm (xs @ ys) = enqueued nm xs @ enqueued nm ys"
  by (induction nm xs rule: enqueued.induct) auto

lemma channel_send_accepts:
  assumes "isinstance v (var_type (sel (channels self)))"
  shows "channel_send sel upd v self =
           Returned (self\<lparr>channels := upd (\<lambda>_. (sel (channels self))\<lparr>queue := queue (sel (channels self)) @ [v]\<rparr>) (channels self),
                          sent := sent self @ [Put (name (sel (channels self))) v]\<rparr>)"
  using assms by (simp add: channel_send_def send_match)

lemma channel_send_drops:
  assumes "\<not> isinstance v (var_type (sel (channels self)))"
  shows "channel_send sel upd v self =
           Returned (self\<lparr>channels := upd (\<lambda>_. sel (channels self)) (channels self), sent := sent self\<rparr>)"
  using assms by (simp add: channel_send_def send_mismatch)

lemma channel_send_returns: "returns (channel_send sel upd v self)"
  by (cases "isinstance v (var_type (sel (channels self)))")
     (simp_all add: channel_send_accepts channel_send_drops)

lemma report_status_str:
  assumes "declared_channels (channels self)"
  shows "report_status (VStr s) self =
           Returned (self\<lparr>channels := (channels self)\<lparr>status := (status (channels self))\<lparr>queue := queue (status (channels self)) @ [VStr s]\<rparr>\<rparr>,
                          sent := sent self @ [Put ''status'' (VStr s)]\<rparr>)"
  using assms by (simp add: report_status_def channel_send_accepts declared_channels_def)

lemma report_progress_int:
  assumes "declared_channels (channels self)"
  shows "report_progress (VInt p) self =
           Returned (self\<lparr>channels := (channels self)\<lparr>progress := (progress (channels self))\<lparr>queue := queue (progress (channels self)) @ [VInt p]\<rparr>\<rparr>,
                          sent := sent self @ [Put ''progress'' (VInt p)]\<rparr>)"
  using assms by (simp add: report_progress_def channel_send_accepts declared_channels_def)

lemma report_result_any:
  assumes "declared_channels (channels self)"
  shows "report_result r self =
           Returned (self\<lparr>channels := (channels self)\<lparr>result := (result (channels self))\<lparr>queue := queue (result (channels self)) @ [r]\<rparr>\<rparr>,
                          sent := sent self @ [Put ''result'' r]\<rparr>)"
  using assms by (simp add: report_result_def channel_send_accepts declared_channels_def)

lemma send_error_str:
  assumes "declared_channels (channels self)"
  shows "channel_send error error_update (VStr s) self =
           Returned (self\<lparr>channels := (channels self)\<lparr>error := (error (channels self))\<lparr>queue := queue (error (channels self)) @ [VStr s]\<rparr>\<rparr>,
                          sent := sent self @ [Put ''error'' (VStr s)]\<rparr>)"
  using assms by (simp add: channel_send_accepts declared_channels_def)

lemma send_success_bool:
  assumes "declared_channels (channels self)"
  shows "channel_send success success_update (VBool b) self =
           Returned (self\<lparr>channels := (channels self)\<lparr>success := (success (channels self))\<lparr>queue := queue (success (channels self)) @ [VBool b]\<rparr>\<rparr>,
                          sent := sent self @ [Put ''success'' (VBool b)]\<rparr>)"
  using assms by (simp add: channel_send_accepts declared_channels_def)

lemmas report_simps = report_status_str report_progress_int report_result_any send_error_str send_success_bool

lemma declared_init: "declared_channels (ThreadWorkerChannels_init nm)"
  by (simp add: declared_channels_def ThreadWorkerChannels_init_def ThreadChannel_init_def)

lemma extends_by_trans:
  "extends_by a b e1 \<Longrightarrow> extends_by b c e2 \<Longrightarrow> extends_by a c (e1 @ e2)"
  by (simp add: extends_by_def enqueued_append)

lemma extends_by_refl: "extends_by a a []"
  by (simp add: extends_by_def)

lemma item_step:
  assumes "declared_channels (channels self)"
  shows "\<exists>self1. and_then (report_status (VStr s)) (report_progress (VInt p)) (self :: 'w TicketCreator) = Returned self1
           \<and> extends_by self self1 [Put ''status'' (VStr s), Put ''progress'' (VInt p)]
           \<and> declared_channels (channels self1)
           \<and> monitor_thread self1 = monitor_thread self \<and> items self1 = items self"
  using assms
  by (simp add: and_then_def report_simps extends_by_def declared_channels_def)

lemma ticket_loop_emits:
  assumes "declared_channels (channels self)" and "list_all has_id its" and "k \<noteq> 0"
  shows "\<exists>self'. ticket_loop k its ((count, created), self) =
                    Returned ((count + int (length its), created + int (length its)), self')
           \<and> extends_by self self' (item_events k count its)
           \<and> declared_channels (channels self')
           \<and> monitor_thread self' = monitor_thread self \<and> items self' = items self"
  using assms(1,2)
proof (induction its arbitrary: count created self)
  case Nil
  show ?case using Nil.prems(1) by (simp add: extends_by_refl)
next
  case (Cons item rest)
  from Cons.prems(2) obtain cid where cid: "item ''id'' = Some cid"
    by (auto simp: has_id_def)
  let ?s = "''Creating tickets for Contract ID: '' @ py_str cid"
  let ?p = "round_pct (count + 1) k"
  have div: "py_truediv (count + 1) k = Inr (double_of_rat (of_int (count + 1) / of_int k))"
    using assms(3) by (simp add: py_truediv_def)
  obtain self1 where s1: "and_then (report_status (VStr ?s)) (report_progress (VInt ?p)) self = Returned self1"
    and e1: "extends_by self self1 [Put ''status'' (VStr ?s), Put ''progress'' (VInt ?p)]"
    and d1: "declared_channels (channels self1)"
    and f1: "monitor_thread self1 = monitor_thread self" "items self1 = items self"
    using item_step [OF Cons.prems(1), of ?s ?p] by blast
  from Cons.prems(2) have rest: "list_all has_id rest" by simp
  obtain self' where l: "ticket_loop k rest ((count + 1, created + 1), self1) =
        Returned ((count + 1 + int (length rest), created + 1 + int (length rest)), self')"
    and e2: "extends_by self1 self' (item_events k (count + 1) rest)"
    and d2: "declared_channels (channels self')"
    and f2: "monitor_thread self' = monitor_thread self1" "items self' = items self1"
    using Cons.IH [OF d1 rest, of "count + 1" "created + 1"] by blast
  have "ticket_loop k (item # rest) ((count, created), self) =
          Returned ((count + int (length (item # rest)), created + int (length (item # rest))), self')"
    using cid div s1 l by (simp add: round_pct_def Let_def add.assoc)
  moreover have "extends_by self self' (item_events k count (item # rest))"
    using extends_by_trans [OF e1 e2] cid by simp
  ultimately show ?case using d2 f1 f2 by auto
qed

lemma channel_send_monitor:
  "monitor_thread (state_of (channel_send sel upd v self)) = monitor_thread self"
  by (cases "isinstance v (var_type (sel (channels self)))")
     (simp_all add: channel_send_accepts channel_send_drops)

lemma run_unfold:
  assumes "start_raises (monitor_thread self) = None"
  shows "run act self = cleanup (state_of (act (started self)))"
proof -
  obtain s1 where s1: "report_status (VStr ''Starting'') self = Returned s1"
    using channel_send_returns [of status status_update "VStr ''Starting''" self]
    by (cases "report_status (VStr ''Starting'') self") (auto simp: report_status_def)
  have m1: "monitor_thread s1 = monitor_thread self"
    using channel_send_monitor [of status status_update "VStr ''Starting''" self] s1
    by (simp add: report_status_def)
  obtain s2 where s2: "report_progress (VInt 0) s1 = Returned s2"
    using channel_send_returns [of progress progress_update "VInt 0" s1]
    by (cases "report_progress (VInt 0) s1") (auto simp: report_progress_def)
  have st: "started self = s2"
    using s1 s2 m1 assms by (simp add: started_def and_then_def thread_start_def)
  show ?thesis
    unfolding st using s1 s2 m1 assms
    by (cases "act s2") (simp_all add: run_def and_then_def thread_start_def try_except_def)
qed

lemma state_of_cleanup: "state_of (cleanup s) = s"
  by (simp add: cleanup_def split: option.split)

lemma returns_cleanup: "returns (cleanup s) = (stop_raises (monitor_thread s) = None)"
  by (simp add: cleanup_def split: option.split)

lemma started_extends:
  assumes "declared_channels (channels self)" and "start_raises (monitor_thread self) = None"
  shows "extends_by self (started self) [Put ''status'' (VStr ''Starting''), Put ''progress'' (VInt 0)]
       \<and> declared_channels (channels (started self))
       \<and> monitor_thread (started self) = monitor_thread self
       \<and> ThreadWorker.more (started self) = ThreadWorker.more self"
  using assms
  by (simp add: started_def and_then_def thread_start_def report_simps extends_by_def declared_channels_def)

lemma started_items:
  assumes "declared_channels (channels self)" and "start_raises (monitor_thread self) = None"
  shows "items (started self) = items self"
  using assms
  by (simp add: started_def and_then_def thread_start_def report_simps declared_channels_def)

lemma thread_action_emits:
  assumes "declared_channels (channels self)" and "list_all has_id (items self)" and "items self \<noteq> []"
  shows "\<exists>self'. thread_action self = Returned self' \<and> extends_by self self' (task_events (items self))"
proof -
  let ?k = "int (length (items self))"
  let ?s = "''Creating tickets for '' @ str_int ?k @ '' selected contracts''"
  have k: "?k \<noteq> 0" using assms(3) by simp
  obtain self1 where s1: "and_then (report_status (VStr ?s)) (report_progress (VInt 5)) self = Returned self1"
    and e1: "extends_by self self1 [Put ''status'' (VStr ?s), Put ''progress'' (VInt 5)]"
    and d1: "declared_channels (channels self1)"
    using item_step [OF assms(1), of ?s 5] by blast
  obtain self2 where l: "ticket_loop ?k (items self) ((0, 0), self1) = Returned ((0 + ?k, 0 + ?k), self2)"
    and e2: "extends_by self1 self2 (item_events ?k 0 (items self))"
    and d2: "declared_channels (channels self2)"
    using ticket_loop_emits [OF d1 assms(2) k, of 0 0] by blast
  let ?t = "''Of '' @ str_int ?k @ '' selected contracts, '' @ str_int ?k
            @ '' tickets were created, and '' @ str_int 0 @ '' were skipped''"
  let ?r = "PDict [(''created'', PInt ?k), (''selected'', PInt ?k), (''skipped'', PInt 0)]"
  let ?tail = "and_then (report_progress (VInt 100)) (and_then (report_status (VStr ?t)) (report_result ?r))"
  obtain self3 where s3: "?tail self2 = Returned self3"
    and e3: "extends_by self2 self3 [Put ''progress'' (VInt 100), Put ''status'' (VStr ?t), Put ''result'' ?r]"
    using d2 by (simp add: and_then_def report_simps extends_by_def declared_channels_def)
  have "thread_action self = Returned self3"
    using k s1 l s3 by (simp add: thread_action_def Let_def)
  moreover have "extends_by self self3 (task_events (items self))"
    using extends_by_trans [OF extends_by_trans [OF e1 e2] e3] by (simp add: task_events_def Let_def)
  ultimately show ?thesis by blast
qed

lemma run_ticket_emits:
  assumes "declared_channels (channels self)" and "start_raises (monitor_thread self) = None"
    and "items self \<noteq> []" and "list_all has_id (items self)"
  shows "emits (run thread_action) self (ticket_events (items self))"
proof -
  note st = started_extends [OF assms(1,2)]
  have it: "items (started self) = items self" by (rule started_items [OF assms(1,2)])
  obtain self' where a: "thread_action (started self) = Returned self'"
    and e: "extends_by (started self) self' (task_events (items self))"
    using thread_action_emits [of "started self"] st assms(3,4) it by auto
  have "state_of (run thread_action self) = self'"
    using a by (simp add: run_unfold [OF assms(2)] state_of_cleanup)
  then show ?thesis
    using extends_by_trans [OF conjunct1 [OF st] e] by (simp add: emits_def ticket_events_def)
qed

lemma enqueued_item_progress:
  "enqueued ''progress'' (item_events k count its) =
     map (\<lambda>i. VInt (round_pct i k)) [count + 1 .. count + int (length its)]"
proof (induction its arbitrary: count)
  case Nil
  show ?case by simp
next
  case (Cons item rest)
  have e: "count + int (length (item # rest)) = count + 1 + int (length rest)"
    by simp
  have "[count + 1 .. count + 1 + int (length rest)] =
          (count + 1) # [count + 1 + 1 .. count + 1 + int (length rest)]"
    by (rule upto_rec1) simp
  then show ?case unfolding e using Cons.IH [of "count + 1"] by simp
qed

lemma enqueued_item_status:
  "enqueued ''status'' (item_events k count its) =
     map (\<lambda>item. VStr (''Creating tickets for Contract ID: '' @ py_str (the (item ''id'')))) its"
  by (induction its arbitrary: count) simp_all

lemma enqueued_item_other:
  "nm \<noteq> ''status'' \<Longrightarrow> nm \<noteq> ''progress'' \<Longrightarrow> enqueued nm (item_events k count its) = []"
  by (induction its arbitrary: count) simp_all

lemma round_pct_thirds: "round_pct 1 3 = 33" "round_pct 2 3 = 67" "round_pct 3 3 = 100"
  by code_simp+

lemma round_pct_half: "round_pct 1 2 = 50"
  by code_simp

lemma str_int_small: "str_int 0 = ''0''" "str_int 2 = ''2''" "str_int 3 = ''3''"
  by code_simp+

text \<open>
  C5. A run of the ticket worker over a non-empty list of \<open>k\<close> items, each with an
  \<^verbatim>\<open>'id'\<close>, makes exactly the puts \<open>ticket_events\<close>: the progress values are 0, 5,
  \<^verbatim>\<open>round((i / k) * 100)\<close> for \<open>i\<close> from 1 to \<open>k\<close>, and 100; the status of each item is the fixed
  text followed by the item's identifier; and the result is the dictionary with the
  integer fields \<^verbatim>\<open>created\<close> = \<open>k\<close>, \<^verbatim>\<open>selected\<close> = \<open>k\<close> and \<^verbatim>\<open>skipped\<close> = 0. For the three
  items of the main window the progress values are 0, 5, 33, 67, 100, 100.
\<close>

theorem C5_ticket_progress_sequence:
  assumes "declared_channels (channels self)" and "start_raises (monitor_thread self) = None"
    and "items self \<noteq> []" and "list_all has_id (items self)"
  shows "emits (run thread_action) self (ticket_events (items self))
       \<and> enqueued ''progress'' (ticket_events (items self)) =
           map VInt ([0, 5] @ map (\<lambda>i. round_pct i (int (length (items self)))) [1 .. int (length (items self))] @ [100])
       \<and> enqueued ''status'' (ticket_events (items self)) =
           [VStr ''Starting'',
            VStr (''Creating tickets for '' @ str_int (int (length (items self))) @ '' selected contracts'')]
           @ map (\<lambda>item. VStr (''Creating tickets for Contract ID: '' @ py_str (the (item ''id'')))) (items self)
           @ [VStr (''Of '' @ str_int (int (length (items self))) @ '' selected contracts, ''
                    @ str_int (int (length (items self))) @ '' tickets were created, and ''
                    @ str_int 0 @ '' were skipped'')]
       \<and> enqueued ''result'' (ticket_events (items self)) =
           [PDict [(''created'', PInt (int (length (items self)))),
                   (''selected'', PInt (int (length (items self)))),
                   (''skipped'', PInt 0)]]"
proof -
  have "emits (run thread_action) self (ticket_events (items self))"
    using assms by (rule run_ticket_emits)
  moreover have "enqueued ''progress'' (ticket_events (items self)) =
      map VInt ([0, 5] @ map (\<lambda>i. round_pct i (int (length (items self)))) [1 .. int (length (items self))] @ [100])"
    using enqueued_item_progress [of "int (length (items self))" 0 "items self"]
    by (simp add: ticket_events_def task_events_def Let_def enqueued_append comp_def)
  moreover have "enqueued ''status'' (ticket_events (items self)) =
           [VStr ''Starting'',
            VStr (''Creating tickets for '' @ str_int (int (length (items self))) @ '' selected contracts'')]
           @ map (\<lambda>item. VStr (''Creating tickets for Contract ID: '' @ py_str (the (item ''id'')))) (items self)
           @ [VStr (''Of '' @ str_int (int (length (items self))) @ '' selected contracts, ''
                    @ str_int (int (length (items self))) @ '' tickets were created, and ''
                    @ str_int 0 @ '' were skipped'')]"
    by (simp add: ticket_events_def task_events_def Let_def enqueued_append enqueued_item_status)
  moreover have "enqueued ''result'' (ticket_events (items self)) =
           [PDict [(''created'', PInt (int (length (items self)))),
                   (''selected'', PInt (int (length (items self)))),
                   (''skipped'', PInt 0)]]"
    by (simp add: ticket_events_def task_events_def Let_def enqueued_append enqueued_item_other)
  ultimately show ?thesis by blast
qed

lemma sample_worker_fields:
  "declared_channels (channels sample_worker)" "start_raises (monitor_thread sample_worker) = None"
  "items sample_worker = sample_items" "sent sample_worker = []"
  by (simp_all add: sample_worker_def TicketCreator_init_def declared_init quiet_thread_def)

lemma sample_items_ok: "sample_items \<noteq> []" "list_all has_id sample_items" "int (length sample_items) = 3"
  by (simp_all add: sample_items_def has_id_def)

lemma ticket_events_sample:
  "ticket_events sample_items =
     [Put ''status'' (VStr ''Starting''), Put ''progress'' (VInt 0),
      Put ''status'' (VStr ''Creating tickets for 3 selected contracts''),
      Put ''progress'' (VInt 5),
      Put ''status'' (VStr ''Creating tickets for Contract ID: 42''),
      Put ''progress'' (VInt 33),
      Put ''status'' (VStr ''Creating tickets for Contract ID: 12''),
      Put ''progress'' (VInt 67),
      Put ''status'' (VStr ''Creating tickets for Contract ID: 07''),
      Put ''progress'' (VInt 100), Put ''progress'' (VInt 100),
      Put ''status'' (VStr ''Of 3 selected contracts, 3 tickets were created, and 0 were skipped''),
      Put ''result'' (PDict [(''created'', PInt 3), (''selected'', PInt 3), (''skipped'', PInt 0)])]"
  by (simp add: ticket_events_def task_events_def sample_items_def round_pct_thirds str_int_small)

theorem C5_ticket_progress_sequence_witness:
  "declared_channels (channels sample_worker)
   \<and> start_raises (monitor_thread sample_worker) = None
   \<and> items sample_worker \<noteq> []
   \<and> list_all has_id (items sample_worker)
   \<and> emits (run thread_action) sample_worker (ticket_events sample_items)
   \<and> enqueued ''progress'' (ticket_events sample_items) =
        [VInt 0, VInt 5, VInt 33, VInt 67, VInt 100, VInt 100]
   \<and> enqueued ''status'' (ticket_events sample_items) =
        [VStr ''Starting'', VStr ''Creating tickets for 3 selected contracts'',
         VStr ''Creating tickets for Contract ID: 42'',
         VStr ''Creating tickets for Contract ID: 12'',
         VStr ''Creating tickets for Contract ID: 07'',
         VStr ''Of 3 selected contracts, 3 tickets were created, and 0 were skipped'']
   \<and> enqueued ''result'' (ticket_events sample_items) =
        [PDict [(''created'', PInt 3), (''selected'', PInt 3), (''skipped'', PInt 0)]]"
proof -
  have h1: "declared_channels (channels sample_worker)"
    and h2: "start_raises (monitor_thread sample_worker) = None"
    by (rule sample_worker_fields)+
  have h3: "items sample_worker \<noteq> []" and h4: "list_all has_id (items sample_worker)"
    by (simp_all add: sample_worker_fields sample_items_ok)
  have ev: "enqueued ''progress'' (ticket_events sample_items) =
              [VInt 0, VInt 5, VInt 33, VInt 67, VInt 100, VInt 100]"
    "enqueued ''status'' (ticket_events sample_items) =
        [VStr ''Starting'', VStr ''Creating tickets for 3 selected contracts'',
         VStr ''Creating tickets for Contract ID: 42'',
         VStr ''Creating tickets for Contract ID: 12'',
         VStr ''Creating tickets for Contract ID: 07'',
         VStr ''Of 3 selected contracts, 3 tickets were created, and 0 were skipped'']"
    "enqueued ''result'' (ticket_events sample_items) =
        [PDict [(''created'', PInt 3), (''selected'', PInt 3), (''skipped'', PInt 0)]]"
    by (simp_all add: ticket_events_sample)
  from C5_ticket_progress_sequence [OF h1 h2 h3 h4]
  have "emits (run thread_action) sample_worker (ticket_events sample_items)"
    by (simp add: sample_worker_fields)
  with h1 h2 h3 h4 ev show ?thesis by blast
qed

text \<open>
  C3. The claim asks that a successful run emits the result together with
  \<^verbatim>\<open>success(True)\<close>, as the comment of \<^verbatim>\<open>ThreadWorker.thread_action\<close> prescribes
  (\<^verbatim>\<open>if success: report_result, report_success\<close>). \<^verbatim>\<open>TicketCreator.thread_action\<close> never
  calls \<^verbatim>\<open>report_success\<close>: on the three items of the main window the run puts the
  result on its channel and nothing on the success channel.
\<close>

theorem C3_ticket_result_without_success:
  "sent (state_of (run thread_action sample_worker)) =
     [Put ''status'' (VStr ''Starting''), Put ''progress'' (VInt 0),
      Put ''status'' (VStr ''Creating tickets for 3 selected contracts''),
      Put ''progress'' (VInt 5),
      Put ''status'' (VStr ''Creating tickets for Contract ID: 42''),
      Put ''progress'' (VInt 33),
      Put ''status'' (VStr ''Creating tickets for Contract ID: 12''),
      Put ''progress'' (VInt 67),
      Put ''status'' (VStr ''Creating tickets for Contract ID: 07''),
      Put ''progress'' (VInt 100), Put ''progress'' (VInt 100),
      Put ''status'' (VStr ''Of 3 selected contracts, 3 tickets were created, and 0 were skipped''),
      Put ''result'' (PDict [(''created'', PInt 3), (''selected'', PInt 3), (''skipped'', PInt 0)])]
   \<and> queue (result (channels (state_of (run thread_action sample_worker)))) =
        [PDict [(''created'', PInt 3), (''selected'', PInt 3), (''skipped'', PInt 0)]]
   \<and> queue (success (channels (state_of (run thread_action sample_worker)))) = []"
proof -
  have "emits (run thread_action) sample_worker (ticket_events sample_items)"
    using run_ticket_emits [of sample_worker] by (simp add: sample_worker_fields sample_items_ok)
  then show ?thesis
    by (simp add: emits_def extends_by_def sample_worker_fields ticket_events_sample
        sample_worker_def TicketCreator_init_def ThreadWorkerChannels_init_def ThreadChannel_init_def)
qed

lemma empty_worker_fields:
  "declared_channels (channels empty_worker)" "start_raises (monitor_thread empty_worker) = None"
  "stop_raises (monitor_thread empty_worker) = None"
  "items empty_worker = []" "sent empty_worker = []"
  by (simp_all add: empty_worker_def TicketCreator_init_def declared_init quiet_thread_def)

text \<open>
  C4. The claim asks for exactly one terminal outcome in every run. On the empty list
  \<^verbatim>\<open>TicketCreator.thread_action\<close> reports one status and returns: the run emits no error,
  no result and no success.
\<close>

theorem C4_empty_run_no_terminal_outcome:
  "returns (run thread_action empty_worker)
   \<and> sent (state_of (run thread_action empty_worker)) =
        [Put ''status'' (VStr ''Starting''), Put ''progress'' (VInt 0),
         Put ''status'' (VStr ''Creating 0 tickets, no contracts selected'')]"
proof -
  note st = started_extends [OF empty_worker_fields(1,2)]
  have it: "items (started empty_worker) = []"
    using started_items [OF empty_worker_fields(1,2)] by (simp add: empty_worker_fields)
  have "thread_action (started empty_worker) =
          report_status (VStr ''Creating 0 tickets, no contracts selected'') (started empty_worker)"
    using it by (simp add: thread_action_def)
  then show ?thesis
    using st
    by (simp add: run_unfold [OF empty_worker_fields(2)] state_of_cleanup returns_cleanup
        report_simps extends_by_def empty_worker_fields)
qed

lemma returns_and_then:
  "returns (and_then f g s) = (returns (f s) \<and> returns (g (state_of (f s))))"
  by (cases "f s") (simp_all add: and_then_def)

lemma plain_worker_declared: "declared_channels (channels plain_worker)"
  by (simp add: plain_worker_def ThreadWorker_init_def declared_init)

text \<open>
  C6. \<^verbatim>\<open>report_error\<close> never raises, whatever it is given. Given a text, on a worker whose
  channels are declared as the class declares them, it makes exactly three puts, in this
  order: the status \<^verbatim>\<open>'Error'\<close>, the text on the error channel, \<^verbatim>\<open>False\<close> on the success
  channel; and the three queues grow by these values.
\<close>

theorem C6_report_error_triple:
  "returns (report_error message self)
   \<and> (declared_channels (channels self) \<longrightarrow>
        emits (report_error (VStr t)) self
          [Put ''status'' (VStr ''Error''), Put ''error'' (VStr t), Put ''success'' (VBool False)])"
proof -
  have "returns (report_error message self)"
    by (simp add: report_error_def report_status_def returns_and_then channel_send_returns)
  moreover have "emits (report_error (VStr t)) self
           [Put ''status'' (VStr ''Error''), Put ''error'' (VStr t), Put ''success'' (VBool False)]"
    if "declared_channels (channels self)"
    using that
    by (simp add: report_error_def and_then_def report_simps emits_def extends_by_def declared_channels_def)
  ultimately show ?thesis by blast
qed

theorem C6_report_error_triple_witness:
  "declared_channels (channels plain_worker)
   \<and> returns (report_error (VStr ''disk full'') plain_worker)
   \<and> emits (report_error (VStr ''disk full'')) plain_worker
        [Put ''status'' (VStr ''Error''), Put ''error'' (VStr ''disk full''), Put ''success'' (VBool False)]"
  using plain_worker_declared
    C6_report_error_triple [of "VStr ''disk full''" plain_worker "''disk full''"]
  by blast

lemma run_loop_single:
  "queue c = [d] \<Longrightarrow>
   run_loop (c, w) = Returned (c\<lparr>queue := []\<rparr>, state_of (call_all (callbacks c) d w))"
  by (cases "call_all (callbacks c) d w") (simp_all add: run_loop_def)

lemma bound_worker_fields:
  "declared_channels (channels bound_worker)"
  "queue (progress (channels bound_worker)) = []"
  "callbacks (progress (channels bound_worker)) = [on_progress with_bar]"
  by (simp_all add: bound_worker_def plain_worker_def ThreadWorker_init_def declared_channels_def
      ThreadWorkerChannels_init_def ThreadChannel_init_def subscribe_def)

lemma run_loop_while_idle:
  assumes "list_all (\<lambda>cb. \<forall>d. cb d w = Returned w) cbs"
  shows "\<exists>q'. run_loop_while cbs mx n q w = Returned (q', w)"
proof -
  have call: "call_all cbs' d w = Returned w" if "list_all (\<lambda>cb. \<forall>d. cb d w = Returned w) cbs'" for cbs' d
    using that by (induction cbs') simp_all
  show ?thesis
    using call [OF assms] by (induction q arbitrary: n) simp_all
qed

text \<open>
  C8. A communicator without a progress bar handles a progress value by doing nothing: it
  returns, and the interface is not called at all (the list of calls is unchanged,
  whatever the interface would have done on a call). So a drain of a channel whose
  subscriber is this handler returns and leaves the interface untouched.
\<close>

theorem C8_on_progress_without_sink:
  assumes "progressbar self = None"
  shows "on_progress self p w = Returned w
       \<and> (callbacks c = [on_progress self] \<longrightarrow> (\<exists>q'. run_loop (c, w) = Returned (c\<lparr>queue := q'\<rparr>, w)))"
proof -
  have one: "on_progress self d w = Returned w" for d
    using assms by (simp add: on_progress_def)
  have "\<exists>q'. run_loop (c, w) = Returned (c\<lparr>queue := q'\<rparr>, w)" if "callbacks c = [on_progress self]"
  proof -
    have idle: "list_all (\<lambda>cb. \<forall>d. cb d w = Returned w) (callbacks c)"
      using one that by simp
    from run_loop_while_idle [OF idle, of "max_entries_per_loop c" 0 "queue c"]
    obtain q' where "run_loop_while (callbacks c) (max_entries_per_loop c) 0 (queue c) w = Returned (q', w)" ..
    then show ?thesis by (auto simp: run_loop_def)
  qed
  with one show ?thesis by blast
qed

theorem C8_on_progress_without_sink_witness:
  "progressbar no_bar = None
   \<and> on_progress no_bar (VInt 33) hostile_ui = Returned hostile_ui
   \<and> callbacks no_bar_channel = [on_progress no_bar]
   \<and> run_loop (no_bar_channel, hostile_ui) = Returned (no_bar_channel\<lparr>queue := []\<rparr>, hostile_ui)"
proof -
  have h: "progressbar no_bar = None" by (simp add: no_bar_def)
  have cb: "callbacks no_bar_channel = [on_progress no_bar]"
    by (simp add: no_bar_channel_def subscribe_def ThreadChannel_init_def)
  from C8_on_progress_without_sink [OF h, of "VInt 33" hostile_ui no_bar_channel] cb
  obtain q' where one: "on_progress no_bar (VInt 33) hostile_ui = Returned hostile_ui"
    and r: "run_loop (no_bar_channel, hostile_ui) = Returned (no_bar_channel\<lparr>queue := q'\<rparr>, hostile_ui)"
    by blast
  have "run_loop (no_bar_channel, hostile_ui) = Returned (no_bar_channel\<lparr>queue := []\<rparr>, hostile_ui)"
    using h by (simp add: run_loop_def no_bar_channel_def subscribe_def ThreadChannel_init_def on_progress_def)
  with h one cb show ?thesis by blast
qed

text \<open>With a progress bar, by contrast, the handler calls the interface, and that call may raise.\<close>

lemma on_progress_with_bar:
  "on_progress with_bar (VInt 33) hostile_ui =
     Raised (PyExc ''TclError'' ''no display'') (hostile_ui\<lparr>ui_calls := [SetItem ''bar'' ''value'' (VInt 33)]\<rparr>)"
  by (simp add: on_progress_def with_bar_def hostile_ui_def and_then_def ui_do_def)

text \<open>
  C7. When \<^verbatim>\<open>thread_action\<close> raises, \<^verbatim>\<open>run\<close> catches the exception and goes on to
  \<^verbatim>\<open>cleanup\<close>: what \<^verbatim>\<open>run\<close> returns or raises is what \<^verbatim>\<open>cleanup\<close> does (it returns when the
  thread's \<^verbatim>\<open>_stop()\<close> returns), never the exception of the task. The worker is left as the
  task left it, so the puts of the run are the status \<^verbatim>\<open>'Starting'\<close>, the progress 0, and
  those the task made before it raised: \<^verbatim>\<open>run\<close> adds no error, result or success.
\<close>

theorem C7_run_swallows_task_exception:
  assumes "start_raises (monitor_thread self) = None" and "act (started self) = Raised ex s'"
  shows "run act self = cleanup s'
       \<and> returns (run act self) = (stop_raises (monitor_thread s') = None)
       \<and> state_of (run act self) = s'
       \<and> (declared_channels (channels self) \<and> extends_by (started self) s' evs \<longrightarrow>
            emits (run act) self ([Put ''status'' (VStr ''Starting''), Put ''progress'' (VInt 0)] @ evs))"
proof -
  have r: "run act self = cleanup s'"
    using assms(2) by (simp add: run_unfold [OF assms(1)])
  have "extends_by self s' ([Put ''status'' (VStr ''Starting''), Put ''progress'' (VInt 0)] @ evs)"
    if "declared_channels (channels self)" and "extends_by (started self) s' evs"
    using started_extends [OF that(1) assms(1)] that(2) by (blast intro: extends_by_trans)
  then show ?thesis
    by (simp add: r emits_def state_of_cleanup returns_cleanup)
qed

lemma half_pct: "py_round (float_mul (double_of_rat (1 / 2)) 100) = 50"
  by code_simp

lemma broken_worker_fields:
  "declared_channels (channels broken_worker)" "start_raises (monitor_thread broken_worker) = None"
  by (simp_all add: broken_worker_def TicketCreator_init_def declared_init quiet_thread_def)

lemma broken_worker_raises:
  "thread_action (started broken_worker) =
     Raised (PyExc ''KeyError'' ([CHR 0x27] @ ''id'' @ [CHR 0x27])) (state_of (thread_action (started broken_worker)))"
  "extends_by (started broken_worker) (state_of (thread_action (started broken_worker)))
     [Put ''status'' (VStr ''Creating tickets for 2 selected contracts''), Put ''progress'' (VInt 5),
      Put ''status'' (VStr ''Creating tickets for Contract ID: 42''), Put ''progress'' (VInt 50)]"
  "stop_raises (monitor_thread (state_of (thread_action (started broken_worker)))) = None"
  by (simp_all add: broken_worker_def TicketCreator_init_def started_def and_then_def thread_start_def
      quiet_thread_def report_progress_def report_status_def channel_send_def send_def try_except_def
      send_try_def queue_put_def ThreadWorkerChannels_init_def ThreadChannel_init_def thread_action_def
      Let_def py_truediv_def half_pct str_int_small extends_by_def)

theorem C7_run_swallows_task_exception_witness:
  "declared_channels (channels broken_worker)
   \<and> start_raises (monitor_thread broken_worker) = None
   \<and> thread_action (started broken_worker) =
        Raised (PyExc ''KeyError'' ([CHR 0x27] @ ''id'' @ [CHR 0x27]))
          (state_of (thread_action (started broken_worker)))
   \<and> extends_by (started broken_worker) (state_of (thread_action (started broken_worker)))
        [Put ''status'' (VStr ''Creating tickets for 2 selected contracts''), Put ''progress'' (VInt 5),
         Put ''status'' (VStr ''Creating tickets for Contract ID: 42''), Put ''progress'' (VInt 50)]
   \<and> run thread_action broken_worker = cleanup (state_of (thread_action (started broken_worker)))
   \<and> returns (run thread_action broken_worker)
   \<and> state_of (run thread_action broken_worker) = state_of (thread_action (started broken_worker))
   \<and> emits (run thread_action) broken_worker
        ([Put ''status'' (VStr ''Starting''), Put ''progress'' (VInt 0)] @
         [Put ''status'' (VStr ''Creating tickets for 2 selected contracts''), Put ''progress'' (VInt 5),
          Put ''status'' (VStr ''Creating tickets for Contract ID: 42''), Put ''progress'' (VInt 50)])"
proof -
  note h = broken_worker_fields broken_worker_raises(1,2)
  note c = C7_run_swallows_task_exception [where act = thread_action and self = broken_worker,
      OF h(2,3)]
  have "returns (run thread_action broken_worker)"
    using c broken_worker_raises(3) by blast
  with h c show ?thesis by blast
qed

text \<open>
  In the run of the witness, the second item has no \<^verbatim>\<open>'id'\<close>: the error, success and
  result queues stay empty.
\<close>

lemma broken_run_queues:
  "queue (error (channels (state_of (run thread_action broken_worker)))) = []
   \<and> queue (success (channels (state_of (run thread_action broken_worker)))) = []
   \<and> queue (result (channels (state_of (run thread_action broken_worker)))) = []"
proof -
  have "extends_by broken_worker (state_of (run thread_action broken_worker))
          ([Put ''status'' (VStr ''Starting''), Put ''progress'' (VInt 0)] @
           [Put ''status'' (VStr ''Creating tickets for 2 selected contracts''), Put ''progress'' (VInt 5),
            Put ''status'' (VStr ''Creating tickets for Contract ID: 42''), Put ''progress'' (VInt 50)])"
    using extends_by_trans [OF conjunct1 [OF started_extends [OF broken_worker_fields]] broken_worker_raises(2)]
      broken_worker_raises(1)
    by (simp add: run_unfold [OF broken_worker_fields(2)] state_of_cleanup)
  then show ?thesis
    by (simp add: extends_by_def broken_worker_def TicketCreator_init_def
        ThreadWorkerChannels_init_def ThreadChannel_init_def)
qed

section \<open>What the subscribers observe\<close>

lemma deliver_each_append:
  "deliver_each cbs (xs @ ys) w = deliver_each cbs ys (deliver_each cbs xs w)"
  by (simp add: deliver_each_def)

lemma deliver_each_Cons:
  "deliver_each cbs (d # ds) w = deliver_each cbs ds (fold (\<lambda>cb w'. state_of (cb d w')) cbs w)"
  by (simp add: deliver_each_def)

lemma call_all_quiet:
  "list_all (quiet_on P) cbs \<Longrightarrow> P w \<Longrightarrow>
   call_all cbs d w = Returned (fold (\<lambda>cb w'. state_of (cb d w')) cbs w)
   \<and> P (fold (\<lambda>cb w'. state_of (cb d w')) cbs w)"
proof (induction cbs arbitrary: w)
  case Nil
  then show ?case by simp
next
  case (Cons cb cbs)
  from Cons.prems have q: "returns (cb d w)" "P (state_of (cb d w))"
    by (simp_all add: quiet_on_def)
  then obtain w' where w': "cb d w = Returned w'" by (cases "cb d w") auto
  with q Cons show ?case by simp
qed

lemma run_loop_while_quiet:
  "list_all (quiet_on P) cbs \<Longrightarrow> P w \<Longrightarrow>
   \<exists>k. (q \<noteq> [] \<longrightarrow> 1 \<le> k)
     \<and> run_loop_while cbs mx n q w = Returned (drop k q, deliver_each cbs (take k q) w)
     \<and> P (deliver_each cbs (take k q) w)"
proof (induction q arbitrary: n w)
  case Nil
  then show ?case by (simp add: deliver_each_def)
next
  case (Cons d q)
  let ?w1 = "fold (\<lambda>cb w'. state_of (cb d w')) cbs w"
  from call_all_quiet [OF Cons.prems, of d]
  have call: "call_all cbs d w = Returned ?w1" and p1: "P ?w1" by simp_all
  show ?case
  proof (cases "n + 1 \<ge> mx")
    case True
    have "run_loop_while cbs mx n (d # q) w =
            Returned (drop 1 (d # q), deliver_each cbs (take 1 (d # q)) w)"
      using True call by (simp add: deliver_each_def)
    moreover have "P (deliver_each cbs (take 1 (d # q)) w)"
      using p1 by (simp add: deliver_each_def)
    ultimately show ?thesis by (intro exI [of _ 1]) simp
  next
    case False
    from Cons.IH [OF Cons.prems(1) p1, of "n + 1"]
    obtain k where k: "run_loop_while cbs mx (n + 1) q ?w1 = Returned (drop k q, deliver_each cbs (take k q) ?w1)"
      and pk: "P (deliver_each cbs (take k q) ?w1)" by blast
    have "run_loop_while cbs mx n (d # q) w =
            Returned (drop (Suc k) (d # q), deliver_each cbs (take (Suc k) (d # q)) w)"
      using False call k by (simp add: deliver_each_Cons)
    moreover have "P (deliver_each cbs (take (Suc k) (d # q)) w)"
      using pk by (simp add: deliver_each_Cons)
    ultimately show ?thesis by (intro exI [of _ "Suc k"]) simp
  qed
qed

lemma run_loop_quiet:
  assumes "list_all (quiet_on P) (callbacks c)" and "P w"
  shows "\<exists>k. (queue c \<noteq> [] \<longrightarrow> 1 \<le> k)
     \<and> run_loop (c, w) = Returned (c\<lparr>queue := drop k (queue c)\<rparr>, deliver_each (callbacks c) (take k (queue c)) w)
     \<and> P (deliver_each (callbacks c) (take k (queue c)) w)"
proof -
  from run_loop_while_quiet [OF assms, of "queue c" "max_entries_per_loop c" 0]
  obtain k where "queue c \<noteq> [] \<longrightarrow> 1 \<le> k"
    and "run_loop_while (callbacks c) (max_entries_per_loop c) 0 (queue c) w =
           Returned (drop k (queue c), deliver_each (callbacks c) (take k (queue c)) w)"
    and "P (deliver_each (callbacks c) (take k (queue c)) w)" by blast
  then show ?thesis by (intro exI [of _ k]) (simp add: run_loop_def)
qed

lemma drains_quiet:
  "list_all (quiet_on P) (callbacks c) \<Longrightarrow> P w \<Longrightarrow> length (queue c) \<le> n \<Longrightarrow>
   drains n (c, w) = (c\<lparr>queue := []\<rparr>, deliver_each (callbacks c) (queue c) w)"
proof (induction n arbitrary: c w)
  case 0
  then show ?case by (simp add: deliver_each_def)
next
  case (Suc n)
  from run_loop_quiet [OF Suc.prems(1,2)]
  obtain k where k1: "queue c \<noteq> [] \<longrightarrow> 1 \<le> k"
    and r: "run_loop (c, w) = Returned (c\<lparr>queue := drop k (queue c)\<rparr>, deliver_each (callbacks c) (take k (queue c)) w)"
    and p: "P (deliver_each (callbacks c) (take k (queue c)) w)" by blast
  let ?c1 = "c\<lparr>queue := drop k (queue c)\<rparr>"
  let ?w1 = "deliver_each (callbacks c) (take k (queue c)) w"
  have len: "length (queue ?c1) \<le> n"
    using k1 Suc.prems(3) by (cases "queue c = []") auto
  have cbs: "list_all (quiet_on P) (callbacks ?c1)"
    using Suc.prems(1) by simp
  have "drains n (?c1, ?w1) = (?c1\<lparr>queue := []\<rparr>, deliver_each (callbacks ?c1) (queue ?c1) ?w1)"
    using Suc.IH [OF cbs p len] .
  moreover have "deliver_each (callbacks c) (drop k (queue c)) ?w1 = deliver_each (callbacks c) (queue c) w"
    using deliver_each_append [of "callbacks c" "take k (queue c)" "drop k (queue c)" w] by simp
  ultimately show ?case using r by simp
qed

lemma delivered_to_all_quiet:
  "list_all (quiet_on P) (callbacks c) \<Longrightarrow> P w \<Longrightarrow> delivered_to_all c w"
  by (simp add: delivered_to_all_def drains_quiet)

lemma calm_ui_do: "calm u \<Longrightarrow> ui_do call u = Returned (u\<lparr>ui_calls := ui_calls u @ [call]\<rparr>)"
  by (simp add: calm_def ui_do_def)

lemma calm_update: "calm (u\<lparr>ui_calls := cs\<rparr>) = calm u"
  by (simp add: calm_def)

lemma quiet_on_status: "quiet_on calm (on_status comm)"
  by (cases "statuslabel comm")
     (simp_all add: quiet_on_def on_status_def and_then_def calm_ui_do calm_update)

lemma quiet_on_progress: "quiet_on calm (on_progress comm)"
  by (cases "progressbar comm")
     (simp_all add: quiet_on_def on_progress_def and_then_def calm_ui_do calm_update)

lemma status_after_report_success:
  assumes "declared_channels (channels self)"
  shows "status (channels (state_of (report_success self))) =
           (status (channels self))\<lparr>queue := queue (status (channels self)) @ [VStr ''Success'']\<rparr>"
  using assms
  by (simp add: report_success_def and_then_def report_simps declared_channels_def)

lemma progress_after_report_progress:
  assumes "declared_channels (channels self)"
  shows "progress (channels (state_of (report_progress (VInt p) self))) =
           (progress (channels self))\<lparr>queue := queue (progress (channels self)) @ [VInt p]\<rparr>"
  using assms by (simp add: report_simps)


lemma labelled_fields:
  "channels labelled_worker =
     (channels plain_worker)
       \<lparr>progress := subscribe (on_progress no_bar) (progress (channels plain_worker)),
        status := subscribe (on_status no_bar) (status (channels plain_worker)),
        error := subscribe (on_error no_bar) (error (channels plain_worker)),
        success := subscribe (on_success no_bar) (success (channels plain_worker)),
        result := subscribe (on_result no_bar) (result (channels plain_worker))\<rparr>"
  "labelled_ui = calm_ui\<lparr>ui_calls := [LogMsg ''Setting up'' []]\<rparr>"
  by (simp_all add: labelled_worker_def labelled_ui_def communicator_setup_def communicator_setup_try_def
      try_except_def ui_do_def calm_ui_def)

lemma labelled_facts:
  "declared_channels (channels labelled_worker)"
  "list_all (quiet_on calm) (callbacks (status (channels labelled_worker)))"
  "calm labelled_ui"
  "statuslabel no_bar = Some ''label''"
  "queue (status (channels labelled_worker)) = []"
  "ui_calls labelled_ui = [LogMsg ''Setting up'' []]"
  "comm_name no_bar = ''Create JIRA Tickets''"
  by (simp_all add: labelled_fields plain_worker_def ThreadWorker_init_def declared_channels_def
      ThreadWorkerChannels_init_def ThreadChannel_init_def subscribe_def quiet_on_status
      calm_def calm_ui_def no_bar_def)


text \<open>The drain behind the witness: one call of the handler, which logs and sets the label.\<close>

lemma labelled_drain:
  "snd (drains 1 (status (channels (state_of (report_success labelled_worker))), labelled_ui)) =
     labelled_ui\<lparr>ui_calls :=
       [LogMsg ''Setting up'' [],
        LogMsg ''ThreadWorker %s - Status: %s'' [VStr ''Create JIRA Tickets'', VStr ''Success''],
        SetItem ''label'' ''text'' (VStr ''Success''), UpdateIdletasks]\<rparr>"
proof -
  have c: "callbacks (status (channels labelled_worker)) = [on_status no_bar]"
    by (simp add: labelled_fields plain_worker_def ThreadWorker_init_def
        ThreadWorkerChannels_init_def ThreadChannel_init_def subscribe_def)
  have o: "on_status no_bar (VStr ''Success'') labelled_ui =
        Returned (labelled_ui\<lparr>ui_calls :=
          [LogMsg ''Setting up'' [],
           LogMsg ''ThreadWorker %s - Status: %s'' [VStr ''Create JIRA Tickets'', VStr ''Success''],
           SetItem ''label'' ''text'' (VStr ''Success''), UpdateIdletasks]\<rparr>)"
    using labelled_facts by (simp add: on_status_def and_then_def calm_ui_do calm_update)
  show ?thesis
    using c o labelled_facts(5)
    by (simp add: status_after_report_success [OF labelled_facts(1)] run_loop_def)
qed




text \<open>
  C10 (as amended). \<^verbatim>\<open>report_progress\<close> accepts every integer: for every \<open>p\<close>, negative or
  above 100 alike, it returns and the value is put on the progress channel as it is. A
  drain of that channel, when it was empty before, calls the subscribers with this very
  value, one after the other as long as they return. When the progress subscribers are
  quiet, the drains that follow empty the queue and hand every queued value, \<open>p\<close> last and
  unchanged, to every progress subscriber.
\<close>

theorem C10_report_progress_unchecked:
  "returns (report_progress (VInt p) self)
   \<and> (declared_channels (channels self) \<longrightarrow>
        emits (report_progress (VInt p)) self [Put ''progress'' (VInt p)]
        \<and> (queue (progress (channels self)) = [] \<longrightarrow>
             run_loop (progress (channels (state_of (report_progress (VInt p) self))), w) =
               Returned (progress (channels self),
                         state_of (call_all (callbacks (progress (channels self))) (VInt p) w)))
        \<and> (list_all (quiet_on P) (callbacks (progress (channels self))) \<and> P w \<longrightarrow>
             delivered_to_all (progress (channels (state_of (report_progress (VInt p) self)))) w
             \<and> queue (progress (channels (state_of (report_progress (VInt p) self)))) =
                 queue (progress (channels self)) @ [VInt p]
             \<and> callbacks (progress (channels (state_of (report_progress (VInt p) self)))) =
                 callbacks (progress (channels self))))"
proof -
  have "returns (report_progress (VInt p) self)"
    by (simp add: report_progress_def channel_send_returns)
  moreover have "emits (report_progress (VInt p)) self [Put ''progress'' (VInt p)]
        \<and> (queue (progress (channels self)) = [] \<longrightarrow>
             run_loop (progress (channels (state_of (report_progress (VInt p) self))), w) =
               Returned (progress (channels self),
                         state_of (call_all (callbacks (progress (channels self))) (VInt p) w)))"
    if "declared_channels (channels self)"
    using that by (simp add: report_simps emits_def extends_by_def run_loop_single)
  moreover have "delivered_to_all (progress (channels (state_of (report_progress (VInt p) self)))) w
       \<and> queue (progress (channels (state_of (report_progress (VInt p) self)))) =
           queue (progress (channels self)) @ [VInt p]
       \<and> callbacks (progress (channels (state_of (report_progress (VInt p) self)))) =
           callbacks (progress (channels self))"
    if d: "declared_channels (channels self)"
      and q: "list_all (quiet_on P) (callbacks (progress (channels self)))" and p: "P w"
    unfolding progress_after_report_progress [OF d]
    using q p by (simp add: delivered_to_all_quiet)
  ultimately show ?thesis by blast
qed

theorem C10_report_progress_unchecked_witness:
  "declared_channels (channels bound_worker)
   \<and> queue (progress (channels bound_worker)) = []
   \<and> list_all (quiet_on calm) (callbacks (progress (channels bound_worker)))
   \<and> calm calm_ui
   \<and> returns (report_progress (VInt (- 7)) bound_worker)
   \<and> emits (report_progress (VInt (- 7))) bound_worker [Put ''progress'' (VInt (- 7))]
   \<and> run_loop (progress (channels (state_of (report_progress (VInt (- 7)) bound_worker))), calm_ui) =
        Returned (progress (channels bound_worker),
                  calm_ui\<lparr>ui_calls := [SetItem ''bar'' ''value'' (VInt (- 7)), UpdateIdletasks]\<rparr>)
   \<and> delivered_to_all (progress (channels (state_of (report_progress (VInt (- 7)) bound_worker)))) calm_ui
   \<and> queue (progress (channels (state_of (report_progress (VInt (- 7)) bound_worker)))) = [VInt (- 7)]"
proof -
  have c: "state_of (call_all [on_progress with_bar] (VInt (- 7)) calm_ui) =
             calm_ui\<lparr>ui_calls := [SetItem ''bar'' ''value'' (VInt (- 7)), UpdateIdletasks]\<rparr>"
    by (simp add: on_progress_def with_bar_def calm_ui_def and_then_def ui_do_def)
  have q: "list_all (quiet_on calm) (callbacks (progress (channels bound_worker)))"
    by (simp add: bound_worker_fields quiet_on_progress)
  have k: "calm calm_ui" by (simp add: calm_def calm_ui_def)
  show ?thesis
    using bound_worker_fields q k c
      C10_report_progress_unchecked [of "- 7" bound_worker calm_ui calm]
    by simp
qed

lemma deaf_progress_declared: "declared_channels (channels deaf_progress_worker)"
  by (simp add: deaf_progress_worker_def Let_def ThreadWorker_init_def declared_channels_def
      ThreadWorkerChannels_init_def ThreadChannel_init_def subscribe_def)

lemma deaf_progress_fields:
  "queue (progress (channels deaf_progress_worker)) = []"
  "callbacks (progress (channels deaf_progress_worker)) = [failing, recorder ''b'']"
  by (simp_all add: deaf_progress_worker_def Let_def ThreadWorker_init_def
      ThreadWorkerChannels_init_def ThreadChannel_init_def subscribe_def)

text \<open>
  C10 as it is stated (\<open>p\<close> reaches every progress subscriber) fails when a progress
  subscriber raises: the subscriber registered after it never receives the value.
\<close>

theorem C10_counterexample:
  "\<not> delivered_to_all (progress (channels (state_of (report_progress (VInt 150) deaf_progress_worker)))) []
   \<and> snd (drains 1 (progress (channels (state_of (report_progress (VInt 150) deaf_progress_worker))), [])) = []"
  by (simp add: progress_after_report_progress [OF deaf_progress_declared] deaf_progress_fields
      delivered_to_all_def run_loop_def deliver_each_def failing_def recorder_def)

end
